theory Spec2Isabelle
  imports
    Main
    "HOL-Library.Char_ord"
    "HOL-Library.List_Lexorder"
    "HOL-Library.Product_Lexorder"
    "HOL-Library.Sublist"
begin

section \<open>The generator script \<^verbatim>\<open>scripts/migrate-mcp-to-services.py\<close>\<close>

text \<open>
  The script holds one module-level dictionary \<^verbatim>\<open>TOOL_MAPPINGS\<close> (tool name to a tuple of
  service name, method name and list of argument expressions), a pure function
  \<^verbatim>\<open>generate_tool_impl\<close> that renders one registration block from an f-string template, and
  \<^verbatim>\<open>main\<close>, which prints a header, the block of every item of the dictionary in sorted order,
  and a trailer with the number of items.

  A Python \<^verbatim>\<open>str\<close> is modelled by its UTF-8 bytes, a \<^typ>\<open>string\<close>. The script only
  concatenates strings, compares them (code point order, which UTF-8 keeps as byte order) and
  counts dictionary items, so nothing it does can tell the two apart. The order on
  \<^typ>\<open>char\<close> is the one of the byte values, the order on lists and on tuples is the
  lexicographic one, as for Python's \<^verbatim>\<open>str\<close>, \<^verbatim>\<open>list\<close> and \<^verbatim>\<open>tuple\<close>.
\<close>

subsection \<open>Built-ins: \<^verbatim>\<open>str.join\<close>, \<^verbatim>\<open>str(int)\<close>, \<^verbatim>\<open>dict\<close>\<close>

text \<open>\<^verbatim>\<open>sep.join(xs)\<close> on a list of strings: the items in order, \<^verbatim>\<open>sep\<close> between neighbours.\<close>

fun join :: "string \<Rightarrow> string list \<Rightarrow> string" where
  "join sep [] = []"
| "join sep [x] = x"
| "join sep (x # y # ys) = x @ sep @ join sep (y # ys)"

text \<open>The decimal text of a non-negative integer, as an f-string field formats \<^verbatim>\<open>len(...)\<close>.\<close>

definition digit :: "nat \<Rightarrow> char" where
  "digit d = ''0123456789'' ! d"

function str_nat :: "nat \<Rightarrow> string" where
  "str_nat n = (if n < 10 then [digit n] else str_nat (n div 10) @ [digit (n mod 10)])"
  by pat_completeness auto

termination str_nat
  by (relation "measure (\<lambda>n. n)") auto

declare str_nat.simps [simp del]

text \<open>
  A dictionary keeps its items in insertion order and holds every key once. Assigning to a
  key that is present replaces the value where the key stands; a new key goes to the end.
  A dictionary display \<^verbatim>\<open>{k1: v1, k2: v2, ...}\<close> assigns its entries from left to right to an
  empty dictionary.
\<close>

fun setitem_list :: "'k \<Rightarrow> 'v \<Rightarrow> ('k \<times> 'v) list \<Rightarrow> ('k \<times> 'v) list" where
  "setitem_list k v [] = [(k, v)]"
| "setitem_list k v ((k', v') # kvs) =
     (if k' = k then (k', v) # kvs else (k', v') # setitem_list k v kvs)"

typedef ('k, 'v) dict = "{kvs :: ('k \<times> 'v) list. distinct (map fst kvs)}"
  morphisms items Dict
  by (rule exI [of _ "[]"]) simp

setup_lifting type_definition_dict

lift_definition empty_dict :: "('k, 'v) dict" is "[]"
  by simp

lift_definition setitem :: "'k \<Rightarrow> 'v \<Rightarrow> ('k, 'v) dict \<Rightarrow> ('k, 'v) dict" is setitem_list
proof -
  fix k :: 'k and v :: 'v and kvs :: "('k \<times> 'v) list"
  have keys: "fst ` set (setitem_list k v l) = insert k (fst ` set l)" for l
  proof (induction l)
    case Nil
    show ?case by simp
  next
    case (Cons p l)
    obtain k' v' where p: "p = (k', v')" by (cases p)
    show ?case
    proof (cases "k' = k")
      case True
      then show ?thesis by (simp add: p)
    next
      case False
      then show ?thesis by (simp add: p Cons.IH insert_commute)
    qed
  qed
  assume "distinct (map fst kvs)"
  then show "distinct (map fst (setitem_list k v kvs))"
  proof (induction kvs)
    case Nil
    show ?case by simp
  next
    case (Cons p kvs)
    obtain k' v' where p: "p = (k', v')" by (cases p)
    from Cons.prems have tl: "distinct (map fst kvs)" and hd: "k' \<notin> fst ` set kvs"
      by (simp_all add: p)
    show ?case
    proof (cases "k' = k")
      case True
      with Cons.prems show ?thesis by (simp add: p)
    next
      case False
      have "k' \<notin> fst ` set (setitem_list k v kvs)"
        unfolding keys using hd False by simp
      with Cons.IH [OF tl] False show ?thesis by (simp add: p)
    qed
  qed
qed

definition len :: "('k, 'v) dict \<Rightarrow> nat" where
  "len d = length (items d)"

definition dict_display :: "('k \<times> 'v) list \<Rightarrow> ('k, 'v) dict" where
  "dict_display kvs = foldl (\<lambda>d (k, v). setitem k v d) empty_dict kvs"

subsection \<open>The mapping table\<close>

type_synonym service_call = "string \<times> string \<times> string list"

text \<open>
  The entries of the display in the order of the source, and the dictionary that the
  display evaluates to.
\<close>

definition TOOL_MAPPINGS_display :: "(string \<times> service_call) list" where
  "TOOL_MAPPINGS_display = [
    \<comment> \<open>Entanglement tools\<close>
    (''list_entanglements'', (''entanglements'', ''list'', [''args''])),
    (''get_entanglement'', (''entanglements'', ''get'',
       [''args.id'', ''args.include_children_qupts'', ''args.detailed ? 50 : 20''])),
    (''get_child_entanglements'', (''entanglements'', ''getChildren'',
       [''args.parent_id'', ''args.recursive''])),
    (''create_entanglement'', (''entanglements'', ''create'', [''args''])),
    (''update_entanglement'', (''entanglements'', ''update'', [''args.id'', ''args''])),
    (''move_entanglement'', (''entanglements'', ''move'', [''args.id'', ''args.new_parent_id''])),
    (''delete_entanglement'', (''entanglements'', ''delete'', [''args.id'', ''args.confirm''])),
    (''get_matrix'', (''entanglements'', ''getMatrix'', [''args.entanglement_id''])),
    (''entangle'', (''entanglements'', ''assignToMatrix'', [''args.entanglement_id'', ''args''])),
    (''disentangle'', (''entanglements'', ''removeFromMatrix'',
       [''args.entanglement_id'', ''args.zoku_id'', ''args.role''])),
    (''get_attributes'', (''entanglements'', ''getAttributes'', [''args.entanglement_id''])),
    (''list_sources'', (''entanglements'', ''listSources'', [''args.entanglement_id''])),
    \<comment> \<open>Zoku tools\<close>
    (''list_zoku'', (''zoku'', ''list'', [''args''])),
    (''create_zoku'', (''zoku'', ''create'', [''args''])),
    (''get_entangled'', (''zoku'', ''get'', [''args.id''])),
    \<comment> \<open>Qupt tools\<close>
    (''list_qupts'', (''qupts'', ''list'', [''args''])),
    (''create_qupt'', (''qupts'', ''create'', [''args''])),
    \<comment> \<open>Jewel tools\<close>
    (''add_jewel'', (''jewels'', ''create'', [''args''])),
    (''list_jewels'', (''jewels'', ''list'', [''args''])),
    (''get_jewel'', (''jewels'', ''get'', [''args.id''])),
    (''update_jewel'', (''jewels'', ''update'', [''args.id'', ''args''])),
    (''delete_jewel'', (''jewels'', ''delete'', [''args.id''])),
    (''get_jewel_usage'', (''jewels'', ''getUsage'', [''args.id''])),
    \<comment> \<open>Source tools\<close>
    (''add_source'', (''sources'', ''create'', [''args.entanglement_id'', ''args''])),
    (''sync_source'', (''sources'', ''sync'', [''args.source_id''])),
    (''remove_source'', (''sources'', ''delete'', [''args.source_id''])),
    (''toggle_source'', (''sources'', ''update'', [''args.source_id'', ''{ enabled: args.enabled }'']))
  ]"

definition TOOL_MAPPINGS :: "(string, service_call) dict" where
  "TOOL_MAPPINGS = dict_display TOOL_MAPPINGS_display"

subsection \<open>The renderer\<close>

abbreviation (input) q :: string where
  "q \<equiv> [CHR 0x27]"

text \<open>
  The f-string template, line by line; \<^term>\<open>q\<close> is the single quote and the doubled braces
  of the template are single braces of the text.
\<close>

definition generate_tool_impl :: "string \<Rightarrow> string \<Rightarrow> string \<Rightarrow> string list \<Rightarrow> string" where
  "generate_tool_impl tool_name service_name method_name method_args =
     (let args_str = join '', '' method_args in
        ''  server.registerTool(\<newline>'' @
        ''    '' @ q @ tool_name @ q @ '',\<newline>'' @
        ''    {\<newline>'' @
        ''      description: schemas.'' @ tool_name @ ''.description,\<newline>'' @
        ''      inputSchema: schemas.'' @ tool_name @ ''\<newline>'' @
        ''    },\<newline>'' @
        ''    async (args, extra) => {\<newline>'' @
        ''      return mcpToolWrapper('' @ q @ tool_name @ q @
                   '', logger, extra.sessionId, async () => {\<newline>'' @
        ''        const result = await services.'' @ service_name @ ''.'' @ method_name @
                   ''('' @ args_str @ '');\<newline>'' @
        ''        return result;\<newline>'' @
        ''      });\<newline>'' @
        ''    }\<newline>'' @
        ''  );\<newline>'')"

subsection \<open>The emitter\<close>

text \<open>
  The state of a run: the module global and what has been written to standard output.
  \<^verbatim>\<open>print(x)\<close> writes \<^verbatim>\<open>x\<close> and a newline.
\<close>

record state =
  tool_mappings :: "(string, service_call) dict"
  stdout :: string

definition print :: "string \<Rightarrow> state \<Rightarrow> state" where
  "print text s = s\<lparr>stdout := stdout s @ text @ ''\<newline>''\<rparr>"

text \<open>
  \<^verbatim>\<open>sorted\<close> of the items is \<^const>\<open>sort\<close> on the tuples \<^verbatim>\<open>(tool_name, (service, method, args))\<close>:
  both are stable and return the ascending arrangement under the lexicographic order.
\<close>

definition main :: "state \<Rightarrow> state" where
  "main s0 =
     (let s1 = print ''// Generated MCP tool registrations using services\<newline>'' s0;
          s2 = foldl
                 (\<lambda>s (tool_name, service, method, args).
                    let code = generate_tool_impl tool_name service method args
                    in print code s)
                 s1 (sort (items (tool_mappings s1)))
      in print (''\<newline>// Total tools migrated: '' @ str_nat (len (tool_mappings s2))) s2)"

definition initial_state :: state where
  "initial_state = \<lparr>tool_mappings = TOOL_MAPPINGS, stdout = []\<rparr>"

subsection \<open>Reading the output\<close>

text \<open>
  The renderer on one item of the dictionary, as the loop of \<^const>\<open>main\<close> calls it, and
  the text one run adds to standard output.
\<close>

definition render :: "string \<times> service_call \<Rightarrow> string" where
  "render = (\<lambda>(tool_name, service, method, args).
     generate_tool_impl tool_name service method args)"

definition written :: "state \<Rightarrow> string" where
  "written s = drop (length (stdout s)) (stdout (main s))"

text \<open>The number of positions of a text at which a pattern occurs.\<close>

fun occurrences :: "string \<Rightarrow> string \<Rightarrow> nat" where
  "occurrences p [] = (if p = [] then 1 else 0)"
| "occurrences p (c # cs) = (if prefix p (c # cs) then 1 else 0) + occurrences p cs"

text \<open>The number a decimal numeral denotes.\<close>

definition decimal_value :: "string \<Rightarrow> nat" where
  "decimal_value cs = foldl (\<lambda>acc c. 10 * acc + (of_char c - 48)) 0 cs"

text \<open>
  The argument list in the words of the specification: the expressions in declared order,
  a comma and a space before every expression but the first.
\<close>

fun delimited :: "string list \<Rightarrow> string" where
  "delimited [] = []"
| "delimited (x # xs) = x @ concat (map (\<lambda>y. '', '' @ y) xs)"

text \<open>
  The characters of a name that the template cannot mistake for its own punctuation: any
  character but the dot, the opening parenthesis, the comma and the line break.
\<close>

definition name_char :: "char \<Rightarrow> bool" where
  "name_char c \<longleftrightarrow>
     c \<noteq> CHR ''.'' \<and> c \<noteq> CHR ''('' \<and> c \<noteq> CHR '','' \<and> c \<noteq> CHR ''\<newline>''"

text \<open>
  The layout of the output in the words of the specification: the header line, every
  block followed by one blank line, the trailing line with the count.
\<close>

definition claimed_structure :: "state \<Rightarrow> string" where
  "claimed_structure s =
     ''// Generated MCP tool registrations using services\<newline>'' @
     concat (map (\<lambda>e. render e @ ''\<newline>'') (sort (items (tool_mappings s)))) @
     ''// Total tools migrated: '' @ str_nat (len (tool_mappings s)) @ ''\<newline>''"

section \<open>Auxiliary facts\<close>

subsection \<open>Dictionaries\<close>

lemma distinct_keys_items: "distinct (map fst (items d))"
  using items [of d] by simp

lemma distinct_items: "distinct (items d)"
  using distinct_keys_items [of d] by (simp add: distinct_map)

lemma keys_setitem_list:
  "fst ` set (setitem_list k v kvs) = insert k (fst ` set kvs)"
proof (induction kvs)
  case Nil
  show ?case by simp
next
  case (Cons p kvs)
  obtain k' v' where p: "p = (k', v')" by (cases p)
  show ?case
  proof (cases "k' = k")
    case True
    then show ?thesis by (simp add: p)
  next
    case False
    then show ?thesis by (simp add: p Cons.IH insert_commute)
  qed
qed

lemma map_of_setitem_list: "map_of (setitem_list k v kvs) = (map_of kvs)(k \<mapsto> v)"
  by (induction kvs) (auto simp: fun_eq_iff)

lemma length_setitem_list:
  "length (setitem_list k v kvs) = (if k \<in> fst ` set kvs then length kvs else Suc (length kvs))"
  by (induction kvs) (auto simp: rev_image_eqI)

lemma setitem_list_fresh: "k \<notin> fst ` set kvs \<Longrightarrow> setitem_list k v kvs = kvs @ [(k, v)]"
  by (induction kvs) auto

lemma items_foldl_setitem:
  "items (foldl (\<lambda>d (k, v). setitem k v d) d kvs) =
     foldl (\<lambda>l (k, v). setitem_list k v l) (items d) kvs"
  by (induction kvs arbitrary: d) (simp_all add: setitem.rep_eq split: prod.splits)

lemma items_dict_display:
  "items (dict_display kvs) = foldl (\<lambda>l (k, v). setitem_list k v l) [] kvs"
  by (simp add: dict_display_def items_foldl_setitem empty_dict.rep_eq)

lemma foldl_setitem_list_distinct:
  "distinct (map fst (l @ kvs)) \<Longrightarrow> foldl (\<lambda>l (k, v). setitem_list k v l) l kvs = l @ kvs"
proof (induction kvs arbitrary: l)
  case Nil
  show ?case by simp
next
  case (Cons p kvs)
  obtain k v where p: "p = (k, v)" by (cases p)
  from Cons.prems have fresh: "k \<notin> fst ` set l" by (auto simp: p)
  from Cons.prems have "distinct (map fst ((l @ [(k, v)]) @ kvs))" by (simp add: p)
  from Cons.IH [OF this] show ?case by (simp add: p setitem_list_fresh [OF fresh])
qed

lemma items_dict_display_distinct:
  "distinct (map fst kvs) \<Longrightarrow> items (dict_display kvs) = kvs"
  using foldl_setitem_list_distinct [of "[]" kvs] by (simp add: items_dict_display)

lemma keys_foldl_setitem_list:
  "fst ` set (foldl (\<lambda>l (k, v). setitem_list k v l) l kvs) = fst ` set l \<union> fst ` set kvs"
proof (induction kvs arbitrary: l)
  case Nil
  show ?case by simp
next
  case (Cons p kvs)
  obtain k v where p: "p = (k, v)" by (cases p)
  show ?case by (simp add: p Cons.IH keys_setitem_list)
qed

lemma map_of_foldl_setitem_list:
  "map_of (foldl (\<lambda>l (k, v). setitem_list k v l) l kvs) = map_of l ++ map_of (rev kvs)"
proof (induction kvs arbitrary: l)
  case Nil
  show ?case by simp
next
  case (Cons p kvs)
  obtain k v where p: "p = (k, v)" by (cases p)
  have "map_of (foldl (\<lambda>l (k, v). setitem_list k v l) l (p # kvs)) =
          map_of (setitem_list k v l) ++ map_of (rev kvs)"
    by (simp add: p Cons.IH)
  also have "\<dots> = (map_of l)(k \<mapsto> v) ++ map_of (rev kvs)"
    by (simp only: map_of_setitem_list)
  also have "\<dots> = map_of l ++ map_of (rev (p # kvs))"
    by (simp add: p fun_eq_iff map_add_def split: option.splits)
  finally show ?case .
qed

lemma len_dict_display: "len (dict_display decl) = card (fst ` set decl)"
proof -
  have "length (items (dict_display decl)) = length (map fst (items (dict_display decl)))"
    by simp
  also have "\<dots> = card (set (map fst (items (dict_display decl))))"
    using distinct_keys_items [of "dict_display decl"] by (simp only: distinct_card)
  also have "\<dots> = card (fst ` set decl)"
    by (simp add: items_dict_display keys_foldl_setitem_list)
  finally show ?thesis by (simp add: len_def)
qed

lemma items_TOOL_MAPPINGS: "items TOOL_MAPPINGS = TOOL_MAPPINGS_display"
  unfolding TOOL_MAPPINGS_def by (rule items_dict_display_distinct) code_simp

subsection \<open>The emitter\<close>

lemma stdout_print: "stdout (print text s) = stdout s @ text @ ''\<newline>''"
  by (simp add: print_def)

lemma tool_mappings_print: "tool_mappings (print text s) = tool_mappings s"
  by (simp add: print_def)

lemma loop_body_render:
  "(\<lambda>s (tool_name, service, method, args).
      print (generate_tool_impl tool_name service method args) s) =
   (\<lambda>s e. print (render e) s)"
  by (simp add: fun_eq_iff render_def split: prod.splits)

lemma stdout_loop:
  "stdout (foldl (\<lambda>s e. print (render e) s) s es) =
     stdout s @ concat (map (\<lambda>e. render e @ ''\<newline>'') es)"
  by (induction es arbitrary: s) (simp_all add: stdout_print)

lemma tool_mappings_loop:
  "tool_mappings (foldl (\<lambda>s e. print (render e) s) s es) = tool_mappings s"
  by (induction es arbitrary: s) (simp_all add: tool_mappings_print)

lemma stdout_main:
  "stdout (main s) =
     stdout s @ ''// Generated MCP tool registrations using services\<newline>\<newline>'' @
     concat (map (\<lambda>e. render e @ ''\<newline>'') (sort (items (tool_mappings s)))) @
     ''\<newline>// Total tools migrated: '' @ str_nat (len (tool_mappings s)) @ ''\<newline>''"
  unfolding main_def Let_def loop_body_render
  by (simp add: stdout_print stdout_loop tool_mappings_print tool_mappings_loop)

lemma tool_mappings_main: "tool_mappings (main s) = tool_mappings s"
  unfolding main_def Let_def loop_body_render
  by (simp add: tool_mappings_print tool_mappings_loop)

lemma written_eq:
  "written s =
     ''// Generated MCP tool registrations using services\<newline>\<newline>'' @
     concat (map (\<lambda>e. render e @ ''\<newline>'') (sort (items (tool_mappings s)))) @
     ''\<newline>// Total tools migrated: '' @ str_nat (len (tool_mappings s)) @ ''\<newline>''"
  unfolding written_def stdout_main by simp

subsection \<open>Sorted items\<close>

lemma distinct_keys_sort: "distinct (map fst (sort (items d)))"
  using distinct_keys_items [of d] by (simp add: distinct_map)

lemma sorted_keys_sort: "sorted (map fst (sort (xs :: ('a::linorder \<times> 'b::linorder) list)))"
proof -
  have "sorted_wrt (\<le>) (sort xs)" by simp
  then have "sorted_wrt (\<lambda>x y. fst x \<le> fst y) (sort xs)"
    by (rule sorted_wrt_mono_rel [rotated]) (auto simp: less_eq_prod_def)
  then show ?thesis by (simp add: sorted_wrt_map)
qed

lemma strictly_ascending_keys: "sorted_wrt (<) (map fst (sort (items d)))"
  using sorted_keys_sort [of "items d"] distinct_keys_sort [of d]
  by (simp add: strict_sorted_iff)

lemma sort_items_same_set:
  "set (items d) = set (items d') \<Longrightarrow> sort (items d) = sort (items d')"
  by (rule sorted_distinct_set_unique) (simp_all add: distinct_items)

subsection \<open>Decimal numerals\<close>

lemma of_char_digit: "d < 10 \<Longrightarrow> of_char (digit d) = (48 + d :: nat)"
proof -
  assume "d < 10"
  then have "d \<in> {0, 1, 2, 3, 4, 5, 6, 7, 8, 9}" by auto
  then show ?thesis by (auto simp: digit_def)
qed

lemma decimal_value_snoc:
  "decimal_value (cs @ [c]) = 10 * decimal_value cs + (of_char c - 48)"
  by (simp add: decimal_value_def)

lemma decimal_value_str_nat: "decimal_value (str_nat n) = n"
proof (induction n rule: str_nat.induct)
  case (1 n)
  show ?case
  proof (cases "n < 10")
    case True
    then show ?thesis
      using decimal_value_snoc [of "[]" "digit n"]
      by (simp add: str_nat.simps [of n] of_char_digit decimal_value_def)
  next
    case False
    with 1 have IH: "decimal_value (str_nat (n div 10)) = n div 10" by simp
    have "n mod 10 < 10" by simp
    then have "of_char (digit (n mod 10)) = (48 + n mod 10 :: nat)" by (rule of_char_digit)
    with False IH show ?thesis
      by (simp add: str_nat.simps [of n] decimal_value_snoc)
  qed
qed

subsection \<open>Occurrences\<close>

lemma occurrences_here: "1 \<le> occurrences p (p @ b)"
proof (cases "p @ b")
  case Nil
  then show ?thesis by simp
next
  case (Cons c cs)
  have "prefix p (c # cs)" unfolding Cons [symmetric] by simp
  then show ?thesis unfolding Cons by simp
qed

lemma occurrences_infix: "1 \<le> occurrences p (a @ p @ b)"
proof (induction a)
  case Nil
  show ?case using occurrences_here [of p b] by simp
next
  case (Cons c a)
  then show ?case by (simp add: trans_le_add2)
qed

subsection \<open>The renderer\<close>

lemma occurrences_skip: "1 \<le> occurrences p b \<Longrightarrow> 1 \<le> occurrences p (a @ b)"
  by (induction a) (simp_all add: trans_le_add2)

text \<open>The block, cut into the pieces that the claims name and the text between them.\<close>

lemma generate_tool_impl_segments:
  "generate_tool_impl k sv m a =
     (''  server.registerTool(\<newline>    '' @ q @ k @ q @ '','') @
     ''\<newline>    {\<newline>      '' @
     (''description: schemas.'' @ k @ ''.description'') @
     '',\<newline>      '' @
     (''inputSchema: schemas.'' @ k) @
     ''\<newline>    },\<newline>    async (args, extra) => {\<newline>      return '' @
     (''mcpToolWrapper('' @ q @ k @ q @ '', logger, extra.sessionId, '') @
     ''async () => {\<newline>        const result = await services.'' @
     (sv @ ''.'' @ m @ ''('' @ join '', '' a @ '')'') @
     '';\<newline>        return result;\<newline>      });\<newline>    }\<newline>  );\<newline>''"
  by (simp add: generate_tool_impl_def)

lemma join_delimited: "join '', '' xs = delimited xs"
  by (induction "'', ''" xs rule: join.induct) simp_all

lemma join_snoc: "join sep (xs @ [y]) = (if xs = [] then y else join sep xs @ sep @ y)"
  by (induction sep xs rule: join.induct) simp_all

lemma length_generate_tool_impl:
  "length (generate_tool_impl k sv m a) =
     300 + 4 * length k + length sv + length m + length (join '', '' a)"
  by (simp add: generate_tool_impl_def)

subsection \<open>Counting the call\<close>

lemma occurrences_short: "length t < length p \<Longrightarrow> occurrences p t = 0"
proof (induction t)
  case Nil
  then show ?case by simp
next
  case (Cons c t)
  have "\<not> prefix p (c # t)"
    using Cons.prems prefix_length_le by fastforce
  with Cons show ?case by simp
qed

lemma occurrences_absent_head:
  "c \<notin> set u \<Longrightarrow> occurrences (c # p) (u @ v) = occurrences (c # p) v"
  by (induction u) simp_all

lemma occurrences_miss:
  "c \<notin> set u \<Longrightarrow> \<not> prefix p x \<Longrightarrow> occurrences (c # p) (u @ c # x) = occurrences (c # p) x"
  by (simp add: occurrences_absent_head)

lemma occurrences_hit:
  "c \<notin> set u \<Longrightarrow> prefix p x \<Longrightarrow> occurrences (c # p) (u @ c # x) = 1 + occurrences (c # p) x"
  by (simp add: occurrences_absent_head)

lemma prefix_before_absent:
  "c \<notin> set p \<Longrightarrow> prefix p (u @ c # r) \<longleftrightarrow> prefix p u"
  by (auto simp: prefix_append prefix_Cons)

lemma occurrences_lines:
  "c \<notin> set p \<Longrightarrow> p \<noteq> [] \<Longrightarrow>
     occurrences p (l @ c # r) = occurrences p l + occurrences p r"
proof (induction l)
  case Nil
  then have "\<not> prefix p (c # r)" by (cases p) auto
  with Nil show ?case by simp
next
  case (Cons x l)
  have "prefix p (x # l @ c # r) \<longleftrightarrow> prefix p (x # l)"
    using prefix_before_absent [OF Cons.prems(1), of "x # l" r] by simp
  with Cons show ?case by simp
qed

lemma occurrences_tl: "occurrences p (tl t) \<le> occurrences p t"
  by (cases t) simp_all

lemma occurrences_Cons_tl: "occurrences (x # p) t \<le> occurrences p (tl t)"
proof (induction t)
  case Nil
  then show ?case by simp
next
  case (Cons c t)
  show ?case
  proof (cases t)
    case Nil
    then show ?thesis by auto
  next
    case (Cons d t')
    with Cons.IH show ?thesis by auto
  qed
qed

lemma occurrences_longer: "occurrences (u @ p) t \<le> occurrences p t"
proof (induction u)
  case Nil
  then show ?case by simp
next
  case (Cons x u)
  have "occurrences (x # u @ p) t \<le> occurrences (u @ p) (tl t)" by (rule occurrences_Cons_tl)
  also have "\<dots> \<le> occurrences (u @ p) t" by (rule occurrences_tl)
  also have "\<dots> \<le> occurrences p t" by (rule Cons.IH)
  finally show ?case by simp
qed

lemma prefix_after_name:
  assumes "list_all P m" and "\<not> P d" and "prefix (m @ d # r) t"
  shows "prefix (d # r) (dropWhile P t)"
proof -
  from assms(3) obtain z where "t = (m @ d # r) @ z" by (auto simp: prefix_def)
  then have "dropWhile P t = d # r @ z"
    using assms(1,2) by (simp add: list_all_iff)
  then show ?thesis by simp
qed

lemma prefix_line_break:
  "c \<notin> set a \<Longrightarrow> d \<noteq> c \<Longrightarrow> \<not> prefix (a @ d # r) (c # rest)"
  by (cases a) auto

lemma set_join: "c \<notin> set sep \<Longrightarrow> list_all (\<lambda>x. c \<notin> set x) xs \<Longrightarrow> c \<notin> set (join sep xs)"
  by (induction sep xs rule: join.induct) auto

text \<open>
  The block is walked from dot to dot: the call can only start where a dot is followed by
  the method name and an opening parenthesis, and the template has no such place before the
  call, nor has the text after it.
\<close>

lemma single_call:
  assumes k: "list_all name_char k" and sv: "list_all name_char sv"
    and m: "list_all name_char m"
    and a: "list_all (\<lambda>x. CHR ''\<newline>'' \<notin> set x) args"
  shows "occurrences (sv @ ''.'' @ m @ ''('' @ join '', '' args @ '')'')
           (generate_tool_impl k sv m args) = 1"
proof -
  define A where "A = join '', '' args"
  define pat where "pat = m @ CHR ''('' # A @ '')''"
  define X8 where "X8 = ''        return result;\<newline>      });\<newline>    }\<newline>  );\<newline>''"
  define X7 where "X7 = m @ CHR ''('' # A @ '');'' @ CHR ''\<newline>'' # X8"
  define X6 where "X6 = sv @ CHR ''.'' # X7"
  define X5 where "X5 = ''sessionId, async () => {\<newline>        const result = await services''
                          @ CHR ''.'' # X6"
  define U4 where "U4 = k @ ''\<newline>    },\<newline>    async (args, extra) => {\<newline>      return mcpToolWrapper(''
                          @ q @ k @ q @ '', logger, extra''"
  define X4 where "X4 = U4 @ CHR ''.'' # X5"
  define X3 where "X3 = ''description,\<newline>      inputSchema: schemas'' @ CHR ''.'' # X4"
  define X2 where "X2 = k @ CHR ''.'' # X3"
  define U1 where "U1 = ''registerTool(\<newline>    '' @ q @ k @ q @ '',\<newline>    {\<newline>      description: schemas''"
  define X1 where "X1 = U1 @ CHR ''.'' # X2"
  have block: "generate_tool_impl k sv m args = ''  server'' @ CHR ''.'' # X1"
    by (simp add: generate_tool_impl_def X1_def U1_def X2_def X3_def X4_def U4_def X5_def
          X6_def X7_def X8_def A_def)
  have nl_A: "CHR ''\<newline>'' \<notin> set A"
    unfolding A_def using a by (intro set_join) simp_all
  have dot_k: "CHR ''.'' \<notin> set k" using k by (auto simp: list_all_iff name_char_def)
  have dot_sv: "CHR ''.'' \<notin> set sv" using sv by (auto simp: list_all_iff name_char_def)
  have dot_m: "CHR ''.'' \<notin> set m" using m by (auto simp: list_all_iff name_char_def)
  have nl_m: "CHR ''\<newline>'' \<notin> set m" using m by (auto simp: list_all_iff name_char_def)
  have paren: "\<not> name_char CHR ''(''" by (simp add: name_char_def)
  have after: "prefix (CHR ''('' # A @ '')'') (dropWhile name_char t)" if "prefix pat t" for t
    using prefix_after_name [OF m paren that [unfolded pat_def]] .
  have drop_k: "dropWhile name_char (k @ c # r) = c # r" if "\<not> name_char c" for c r
    using k that by (simp add: list_all_iff)
  have drop_sv: "dropWhile name_char (sv @ c # r) = c # r" if "\<not> name_char c" for c r
    using sv that by (simp add: list_all_iff)
  have n1: "\<not> prefix pat X1"
  proof
    assume "prefix pat X1"
    from after [OF this] have "prefix (A @ '')'') (CHR ''\<newline>'' # ''    '' @ q @ k @ q @ '',\<newline>    {\<newline>      description: schemas'' @ CHR ''.'' # X2)"
      by (simp add: X1_def U1_def name_char_def)
    with prefix_line_break [OF nl_A, of "CHR '')''" "[]"] show False by simp
  qed
  have n2: "\<not> prefix pat X2"
  proof
    assume "prefix pat X2"
    from after [OF this] show False
      unfolding X2_def by (simp add: drop_k name_char_def)
  qed
  have n3: "\<not> prefix pat X3"
  proof
    assume "prefix pat X3"
    from after [OF this] show False
      by (simp add: X3_def name_char_def)
  qed
  have n4: "\<not> prefix pat X4"
  proof
    assume "prefix pat X4"
    from after [OF this] show False
      unfolding X4_def U4_def by (simp add: drop_k name_char_def)
  qed
  have n5: "\<not> prefix pat X5"
  proof
    assume "prefix pat X5"
    from after [OF this] show False
      by (simp add: X5_def name_char_def)
  qed
  have n6: "\<not> prefix pat X6"
  proof
    assume "prefix pat X6"
    from after [OF this] show False
      unfolding X6_def by (simp add: drop_sv name_char_def)
  qed
  have h7: "prefix pat X7" by (simp add: pat_def X7_def)
  let ?Q = "CHR ''.'' # pat"
  have nl_Q: "CHR ''\<newline>'' \<notin> set ?Q" using nl_A nl_m by (simp add: pat_def)
  have "occurrences ?Q X7 = occurrences ?Q ((A @ '');'') @ CHR ''\<newline>'' # X8)"
    using occurrences_absent_head [of "CHR ''.''" "m @ ''(''" pat "(A @ '');'') @ CHR ''\<newline>'' # X8"] dot_m
    by (simp add: X7_def)
  also have "\<dots> = occurrences ?Q (A @ '');'') + occurrences ?Q X8"
    by (rule occurrences_lines [OF nl_Q]) simp
  also have "occurrences ?Q (A @ '');'') = 0"
    by (rule occurrences_short) (simp add: pat_def)
  also have "occurrences ?Q X8 = 0"
    using occurrences_absent_head [of "CHR ''.''" X8 pat "[]"] by (simp add: X8_def)
  finally have tail: "occurrences ?Q X7 = 0" by simp
  have "occurrences ?Q (generate_tool_impl k sv m args) = occurrences ?Q X1"
    unfolding block by (rule occurrences_miss [OF _ n1]) simp
  also have "\<dots> = occurrences ?Q X2"
    unfolding X1_def by (rule occurrences_miss [OF _ n2]) (simp add: U1_def dot_k)
  also have "\<dots> = occurrences ?Q X3"
    unfolding X2_def by (rule occurrences_miss [OF dot_k n3])
  also have "\<dots> = occurrences ?Q X4"
    unfolding X3_def by (rule occurrences_miss [OF _ n4]) simp
  also have "\<dots> = occurrences ?Q X5"
    unfolding X4_def by (rule occurrences_miss [OF _ n5]) (simp add: U4_def dot_k)
  also have "\<dots> = occurrences ?Q X6"
    unfolding X5_def by (rule occurrences_miss [OF _ n6]) simp
  also have "\<dots> = 1 + occurrences ?Q X7"
    unfolding X6_def by (rule occurrences_hit [OF dot_sv h7])
  finally have one: "occurrences ?Q (generate_tool_impl k sv m args) = 1"
    using tail by simp
  have call: "sv @ ''.'' @ m @ ''('' @ join '', '' args @ '')'' = sv @ ?Q"
    by (simp add: pat_def A_def)
  have "occurrences (sv @ ?Q) (generate_tool_impl k sv m args) \<le> 1"
    using occurrences_longer [of sv ?Q "generate_tool_impl k sv m args"] one by simp
  moreover have "1 \<le> occurrences (sv @ ?Q) (generate_tool_impl k sv m args)"
    unfolding call [symmetric] generate_tool_impl_segments
    by (intro occurrences_here occurrences_skip)
  ultimately show ?thesis unfolding call by simp
qed

subsection \<open>The table of the script\<close>

lemma table_names_plain:
  "list_all (\<lambda>(tool_name, service_name, method_name, method_args).
       list_all name_char tool_name \<and> list_all name_char service_name
       \<and> list_all name_char method_name
       \<and> list_all (\<lambda>x. CHR ''\<newline>'' \<notin> set x) method_args)
     TOOL_MAPPINGS_display"
  by code_simp

subsection \<open>The two layouts\<close>

lemma written_longer: "length (written s) = length (claimed_structure s) + 2"
  by (simp add: written_eq claimed_structure_def)

section \<open>The claims\<close>

subsection \<open>The emitter\<close>

text \<open>
  C9. What a run writes is, in this order: the header line and an empty line; for every item
  of the dictionary, in sorted order, its rendered block and an empty line (the block ends
  its own last line, so the newline that \<^verbatim>\<open>print\<close> adds is an empty line); an empty line and
  the trailer line with the number of items. Every item is rendered once. The empty line
  after the header line and the one before the trailer line are written by the script:
  both texts carry a line break of their own.
\<close>

theorem main_output_structure:
  "stdout (main s) =
     stdout s @
     ''// Generated MCP tool registrations using services'' @ ''\<newline>'' @ ''\<newline>'' @
     concat (map (\<lambda>e. render e @ ''\<newline>'') (sort (items (tool_mappings s)))) @
     ''\<newline>'' @ ''// Total tools migrated: '' @ str_nat (len (tool_mappings s)) @ ''\<newline>''
   \<and> set (sort (items (tool_mappings s))) = set (items (tool_mappings s))
   \<and> length (sort (items (tool_mappings s))) = len (tool_mappings s)
   \<and> suffix ''  );\<newline>'' (render e)"
proof -
  obtain k sv m a where e: "e = (k, sv, m, a)" by (cases e)
  have "suffix ''  );\<newline>'' (render e)"
    unfolding e render_def generate_tool_impl_def Let_def suffix_def by simp
  then show ?thesis by (simp add: stdout_main len_def)
qed

text \<open>
  C9 as it was stated does not hold: the header text and the trailer text carry a line
  break of their own, so the output has an empty line after the header line and another
  before the trailer line, which the layout of the specification lacks. With an empty
  table the run writes the header line, two empty lines and the trailer line; on the
  table of the script, as on any other, the output is two characters longer than the
  layout of the specification.
\<close>

theorem output_layout_counterexample:
  "written \<lparr>tool_mappings = dict_display [], stdout = []\<rparr> =
     ''// Generated MCP tool registrations using services\<newline>\<newline>\<newline>// Total tools migrated: 0\<newline>''
   \<and> claimed_structure \<lparr>tool_mappings = dict_display [], stdout = []\<rparr> =
     ''// Generated MCP tool registrations using services\<newline>// Total tools migrated: 0\<newline>''
   \<and> written \<lparr>tool_mappings = dict_display [], stdout = []\<rparr>
       \<noteq> claimed_structure \<lparr>tool_mappings = dict_display [], stdout = []\<rparr>
   \<and> length (written initial_state) = length (claimed_structure initial_state) + 2"
proof -
  have "written \<lparr>tool_mappings = dict_display [], stdout = []\<rparr> =
     ''// Generated MCP tool registrations using services\<newline>\<newline>\<newline>// Total tools migrated: 0\<newline>''
   \<and> claimed_structure \<lparr>tool_mappings = dict_display [], stdout = []\<rparr> =
     ''// Generated MCP tool registrations using services\<newline>// Total tools migrated: 0\<newline>''
   \<and> written \<lparr>tool_mappings = dict_display [], stdout = []\<rparr>
       \<noteq> claimed_structure \<lparr>tool_mappings = dict_display [], stdout = []\<rparr>"
    unfolding written_eq claimed_structure_def len_def state.simps items_dict_display
    by code_simp
  moreover have "length (written initial_state) = length (claimed_structure initial_state) + 2"
    by (rule written_longer)
  ultimately show ?thesis by blast
qed

text \<open>
  C5. A run appends to standard output a text that is determined by the dictionary alone
  (whatever was written before), and it leaves the dictionary as it was; so a second run
  writes the same bytes again.
\<close>

theorem run_deterministic:
  "stdout (main s) = stdout s @ written s
   \<and> tool_mappings (main s) = tool_mappings s
   \<and> written (main s) = written s
   \<and> written s = written \<lparr>tool_mappings = tool_mappings s, stdout = out\<rparr>"
proof -
  have "stdout (main s) = stdout s @ written s"
    unfolding written_eq stdout_main by simp
  then show ?thesis by (simp add: written_eq tool_mappings_main)
qed

text \<open>
  C2. The blocks are written in strictly ascending lexicographic order of the tool names,
  and two dictionaries that hold the same items, inserted in whatever order, give the
  same output.
\<close>

theorem blocks_sorted_by_tool_name:
  "written s =
     ''// Generated MCP tool registrations using services\<newline>\<newline>'' @
     concat (map (\<lambda>e. render e @ ''\<newline>'') (sort (items (tool_mappings s)))) @
     ''\<newline>// Total tools migrated: '' @ str_nat (len (tool_mappings s)) @ ''\<newline>''
   \<and> sorted_wrt (<) (map fst (sort (items (tool_mappings s))))
   \<and> (set (items (tool_mappings s')) = set (items (tool_mappings s)) \<longrightarrow>
        written s' = written s)"
proof -
  have "written s' = written s"
    if same: "set (items (tool_mappings s')) = set (items (tool_mappings s))"
  proof -
    have "sort (items (tool_mappings s')) = sort (items (tool_mappings s))"
      using same by (rule sort_items_same_set)
    moreover have "length (items (tool_mappings s')) = length (items (tool_mappings s))"
      using same distinct_card [OF distinct_items [of "tool_mappings s'"]]
        distinct_card [OF distinct_items [of "tool_mappings s"]] by simp
    ultimately show ?thesis by (simp add: written_eq len_def)
  qed
  then show ?thesis by (simp add: written_eq strictly_ascending_keys)
qed

theorem blocks_sorted_by_tool_name_witness:
  "written \<lparr>tool_mappings = dict_display
       [(''list_zoku'', (''zoku'', ''list'', [''args''])),
        (''add_jewel'', (''jewels'', ''create'', [''args'']))], stdout = []\<rparr> =
   written \<lparr>tool_mappings = dict_display
       [(''add_jewel'', (''jewels'', ''create'', [''args''])),
        (''list_zoku'', (''zoku'', ''list'', [''args'']))], stdout = []\<rparr>
   \<and> map fst (sort (items (dict_display
       [(''list_zoku'', (''zoku'', ''list'', [''args''])),
        (''add_jewel'', (''jewels'', ''create'', [''args'']))]))) = [''add_jewel'', ''list_zoku'']"
  using blocks_sorted_by_tool_name
    [of "\<lparr>tool_mappings = dict_display
       [(''add_jewel'', (''jewels'', ''create'', [''args''])),
        (''list_zoku'', (''zoku'', ''list'', [''args'']))], stdout = []\<rparr>"
      "\<lparr>tool_mappings = dict_display
       [(''list_zoku'', (''zoku'', ''list'', [''args''])),
        (''add_jewel'', (''jewels'', ''create'', [''args'']))], stdout = []\<rparr>"]
  by (simp add: items_dict_display insert_commute)

text \<open>
  C10. A dictionary holds every key once, however it was built, so the tool names of the
  blocks of one run are pairwise distinct.
\<close>

theorem emitted_tool_names_distinct:
  "distinct (map fst (items (dict_display decl)))
   \<and> distinct (map fst (sort (items (tool_mappings s))))
   \<and> stdout (main s) =
       stdout s @ ''// Generated MCP tool registrations using services\<newline>\<newline>'' @
       concat (map (\<lambda>e. render e @ ''\<newline>'') (sort (items (tool_mappings s)))) @
       ''\<newline>// Total tools migrated: '' @ str_nat (len (tool_mappings s)) @ ''\<newline>''"
  by (simp add: distinct_keys_items distinct_keys_sort stdout_main)

text \<open>
  C4. For a table declared with \<open>N\<close> entries of pairwise distinct tool names, a run writes
  \<open>N\<close> blocks, and the trailer shows the decimal numeral of \<open>N\<close>.
\<close>

theorem block_count_and_trailer:
  assumes "distinct (map fst decl)" and "tool_mappings s = dict_display decl"
  shows "length (map render (sort (items (tool_mappings s)))) = length decl
   \<and> stdout (main s) =
       stdout s @ ''// Generated MCP tool registrations using services\<newline>\<newline>'' @
       concat (map (\<lambda>b. b @ ''\<newline>'') (map render (sort (items (tool_mappings s))))) @
       ''\<newline>// Total tools migrated: '' @ str_nat (length decl) @ ''\<newline>''
   \<and> decimal_value (str_nat (length decl)) = length decl"
proof -
  from assms have "items (tool_mappings s) = decl"
    by (simp add: items_dict_display_distinct)
  then show ?thesis
    by (simp add: stdout_main len_def decimal_value_str_nat comp_def)
qed

theorem block_count_and_trailer_witness:
  "length (map render (sort (items (tool_mappings initial_state)))) = 27
   \<and> stdout (main initial_state) =
       ''// Generated MCP tool registrations using services\<newline>\<newline>'' @
       concat (map (\<lambda>b. b @ ''\<newline>'')
         (map render (sort (items (tool_mappings initial_state))))) @
       ''\<newline>// Total tools migrated: 27\<newline>''
   \<and> decimal_value ''27'' = 27"
proof -
  have d: "distinct (map fst TOOL_MAPPINGS_display)" by code_simp
  have t: "tool_mappings initial_state = dict_display TOOL_MAPPINGS_display"
    by (simp add: initial_state_def TOOL_MAPPINGS_def)
  have n: "length TOOL_MAPPINGS_display = 27" by code_simp
  have s: "str_nat 27 = ''27''" by code_simp
  have "stdout initial_state = []" by (simp add: initial_state_def)
  with block_count_and_trailer [OF d t] show ?thesis
    unfolding n s by simp
qed

subsection \<open>The renderer\<close>

text \<open>
  C1. Every block holds the call \<^verbatim>\<open>service.method(joined arguments)\<close>, the tool name as a quoted
  literal that opens the registration, the two references into \<^verbatim>\<open>schemas\<close> under the tool
  name, and the wrapper call with the tool name, \<^verbatim>\<open>logger\<close> and \<^verbatim>\<open>extra.sessionId\<close>. The text
  of the call stands at exactly one position of the block whenever the tool name, the
  service name and the method name hold no dot, opening parenthesis, comma or line break
  and no argument expression holds a line break; every entry of the table of the script is
  of this kind.
\<close>

theorem rendered_block_contract:
  "(list_all name_char k \<and> list_all name_char sv \<and> list_all name_char m
      \<and> list_all (\<lambda>x. CHR ''\<newline>'' \<notin> set x) a \<longrightarrow>
      occurrences (sv @ ''.'' @ m @ ''('' @ join '', '' a @ '')'') (generate_tool_impl k sv m a) = 1)
   \<and> 1 \<le> occurrences (sv @ ''.'' @ m @ ''('' @ join '', '' a @ '')'') (generate_tool_impl k sv m a)
   \<and> 1 \<le> occurrences (''  server.registerTool(\<newline>    '' @ q @ k @ q @ '','')
          (generate_tool_impl k sv m a)
   \<and> 1 \<le> occurrences (''description: schemas.'' @ k @ ''.description'')
          (generate_tool_impl k sv m a)
   \<and> 1 \<le> occurrences (''inputSchema: schemas.'' @ k) (generate_tool_impl k sv m a)
   \<and> 1 \<le> occurrences (''mcpToolWrapper('' @ q @ k @ q @ '', logger, extra.sessionId, '')
          (generate_tool_impl k sv m a)
   \<and> (\<forall>(tool_name, service_name, method_name, method_args) \<in> set (items TOOL_MAPPINGS).
        occurrences (service_name @ ''.'' @ method_name @ ''('' @ join '', '' method_args @ '')'')
          (generate_tool_impl tool_name service_name method_name method_args) = 1)"
proof -
  have "\<forall>(tool_name, service_name, method_name, method_args) \<in> set (items TOOL_MAPPINGS).
        occurrences (service_name @ ''.'' @ method_name @ ''('' @ join '', '' method_args @ '')'')
          (generate_tool_impl tool_name service_name method_name method_args) = 1"
  proof
    fix e assume mem: "e \<in> set (items TOOL_MAPPINGS)"
    obtain tn s mn ma where e: "e = (tn, s, mn, ma)" by (cases e)
    from mem table_names_plain
    have "list_all name_char tn" "list_all name_char s" "list_all name_char mn"
      "list_all (\<lambda>x. CHR ''\<newline>'' \<notin> set x) ma"
      unfolding items_TOOL_MAPPINGS e list_all_iff [of _ TOOL_MAPPINGS_display] by blast+
    then have "occurrences (s @ ''.'' @ mn @ ''('' @ join '', '' ma @ '')'')
        (generate_tool_impl tn s mn ma) = 1"
      by (rule single_call)
    then show "case e of (tool_name, service_name, method_name, method_args) \<Rightarrow>
        occurrences (service_name @ ''.'' @ method_name @ ''('' @ join '', '' method_args @ '')'')
          (generate_tool_impl tool_name service_name method_name method_args) = 1"
      unfolding e prod.case .
  qed
  moreover have
    "list_all name_char k \<and> list_all name_char sv \<and> list_all name_char m
      \<and> list_all (\<lambda>x. CHR ''\<newline>'' \<notin> set x) a \<longrightarrow>
      occurrences (sv @ ''.'' @ m @ ''('' @ join '', '' a @ '')'') (generate_tool_impl k sv m a) = 1"
    using single_call [of k sv m a] by blast
  moreover have
    "1 \<le> occurrences (sv @ ''.'' @ m @ ''('' @ join '', '' a @ '')'') (generate_tool_impl k sv m a)
     \<and> 1 \<le> occurrences (''  server.registerTool(\<newline>    '' @ q @ k @ q @ '','')
          (generate_tool_impl k sv m a)
     \<and> 1 \<le> occurrences (''description: schemas.'' @ k @ ''.description'')
          (generate_tool_impl k sv m a)
     \<and> 1 \<le> occurrences (''inputSchema: schemas.'' @ k) (generate_tool_impl k sv m a)
     \<and> 1 \<le> occurrences (''mcpToolWrapper('' @ q @ k @ q @ '', logger, extra.sessionId, '')
          (generate_tool_impl k sv m a)"
    unfolding generate_tool_impl_segments
    by (intro conjI; intro occurrences_here occurrences_skip)
  ultimately show ?thesis by blast
qed

theorem rendered_block_contract_witness:
  "list_all name_char ''get_entanglement'' \<and> list_all name_char ''entanglements''
   \<and> list_all name_char ''get''
   \<and> list_all (\<lambda>x. CHR ''\<newline>'' \<notin> set x)
       [''args.id'', ''args.include_children_qupts'', ''args.detailed ? 50 : 20'']
   \<and> (''get_entanglement'', ''entanglements'', ''get'',
        [''args.id'', ''args.include_children_qupts'', ''args.detailed ? 50 : 20''])
      \<in> set (items TOOL_MAPPINGS)
   \<and> occurrences ''entanglements.get(args.id, args.include_children_qupts, args.detailed ? 50 : 20)''
       (generate_tool_impl ''get_entanglement'' ''entanglements'' ''get''
          [''args.id'', ''args.include_children_qupts'', ''args.detailed ? 50 : 20'']) = 1"
proof -
  have hyp: "list_all name_char ''get_entanglement'' \<and> list_all name_char ''entanglements''
     \<and> list_all name_char ''get''
     \<and> list_all (\<lambda>x. CHR ''\<newline>'' \<notin> set x)
       [''args.id'', ''args.include_children_qupts'', ''args.detailed ? 50 : 20'']"
    by (simp add: name_char_def)
  have mem: "(''get_entanglement'', ''entanglements'', ''get'',
        [''args.id'', ''args.include_children_qupts'', ''args.detailed ? 50 : 20''])
      \<in> set (items TOOL_MAPPINGS)"
    unfolding items_TOOL_MAPPINGS by code_simp
  have "occurrences (''entanglements'' @ ''.'' @ ''get'' @ ''('' @
          join '', '' [''args.id'', ''args.include_children_qupts'', ''args.detailed ? 50 : 20'']
          @ '')'')
       (generate_tool_impl ''get_entanglement'' ''entanglements'' ''get''
          [''args.id'', ''args.include_children_qupts'', ''args.detailed ? 50 : 20'']) = 1"
    using rendered_block_contract [of "''get_entanglement''" "''entanglements''" "''get''"
        "[''args.id'', ''args.include_children_qupts'', ''args.detailed ? 50 : 20'']"] hyp
    by blast
  then have "occurrences
       ''entanglements.get(args.id, args.include_children_qupts, args.detailed ? 50 : 20)''
       (generate_tool_impl ''get_entanglement'' ''entanglements'' ''get''
          [''args.id'', ''args.include_children_qupts'', ''args.detailed ? 50 : 20'']) = 1"
    by (simp del: occurrences.simps)
  with hyp mem show ?thesis by blast
qed

text \<open>
  C1 as it was stated does not hold for every entry: when the tool name is itself the text
  of the call, the text stands in the block at five positions, once for the call and once
  for every use of the tool name.
\<close>

theorem repeated_call_text_counterexample:
  "''zoku'' @ ''.'' @ ''list'' @ ''('' @ join '', '' [''args''] @ '')'' = ''zoku.list(args)''
   \<and> occurrences ''zoku.list(args)''
       (generate_tool_impl ''zoku.list(args)'' ''zoku'' ''list'' [''args'']) = 5"
  by code_simp

text \<open>
  C3. The argument list of the call is the expressions in declared order with a comma and a
  space between neighbours; with no expression the call is \<^verbatim>\<open>service.method()\<close>.
\<close>

theorem argument_list_joined:
  "join '', '' args = delimited args
   \<and> join '', '' [] = []
   \<and> join '', '' (args @ [x]) = (if args = [] then x else join '', '' args @ '', '' @ x)
   \<and> 1 \<le> occurrences (''services.'' @ sv @ ''.'' @ m @ ''('' @ delimited args @ '');'')
          (generate_tool_impl k sv m args)
   \<and> 1 \<le> occurrences (''services.'' @ sv @ ''.'' @ m @ ''();'') (generate_tool_impl k sv m [])"
proof -
  have call: "1 \<le> occurrences (''services.'' @ sv @ ''.'' @ m @ ''('' @ join '', '' xs @ '');'')
          (generate_tool_impl k sv m xs)" for xs
    using occurrences_infix [of "''services.'' @ sv @ ''.'' @ m @ ''('' @ join '', '' xs @ '');''"
      "''  server.registerTool(\<newline>    '' @ q @ k @ q @ '',\<newline>    {\<newline>      description: schemas.''
        @ k @ ''.description,\<newline>      inputSchema: schemas.'' @ k @
        ''\<newline>    },\<newline>    async (args, extra) => {\<newline>      return mcpToolWrapper(''
        @ q @ k @ q @ '', logger, extra.sessionId, async () => {\<newline>        const result = await ''"
      "''\<newline>        return result;\<newline>      });\<newline>    }\<newline>  );\<newline>''"]
    by (simp add: generate_tool_impl_def del: occurrences.simps)
  from call [of args] call [of "[]"] show ?thesis
    by (simp add: join_delimited [symmetric] join_snoc del: occurrences.simps)
qed

text \<open>
  C8. The renderer is a function of the four fields of a record alone; it has no state to
  read or write and no branch that fails. For every record it gives a block that opens the
  registration, closes it, and is as long as the template and the fields make it; with no
  argument expression the block is the one written out here.
\<close>

theorem renderer_total:
  "generate_tool_impl k sv m a \<noteq> []
   \<and> prefix ''  server.registerTool(\<newline>'' (generate_tool_impl k sv m a)
   \<and> suffix ''  );\<newline>'' (generate_tool_impl k sv m a)
   \<and> length (generate_tool_impl k sv m a) =
       300 + 4 * length k + length sv + length m + length (join '', '' a)
   \<and> generate_tool_impl k sv m [] =
       ''  server.registerTool(\<newline>    '' @ q @ k @ q @ '',\<newline>    {\<newline>      description: schemas.''
       @ k @ ''.description,\<newline>      inputSchema: schemas.'' @ k @
       ''\<newline>    },\<newline>    async (args, extra) => {\<newline>      return mcpToolWrapper(''
       @ q @ k @ q @ '', logger, extra.sessionId, async () => {\<newline>        const result = await services.''
       @ sv @ ''.'' @ m @ ''();\<newline>        return result;\<newline>      });\<newline>    }\<newline>  );\<newline>''"
proof -
  have "suffix ''  );\<newline>'' (generate_tool_impl k sv m a)"
    unfolding generate_tool_impl_def Let_def suffix_def by simp
  moreover have "prefix ''  server.registerTool(\<newline>'' (generate_tool_impl k sv m a)"
    by (simp add: generate_tool_impl_def)
  moreover have "generate_tool_impl k sv m a \<noteq> []"
    by (simp add: generate_tool_impl_def)
  ultimately show ?thesis
    by (simp add: length_generate_tool_impl) (simp add: generate_tool_impl_def)
qed

text \<open>
  C7. The two entries of the examples are in the table of the script, and their blocks hold
  the calls and the schema references of the examples.
\<close>

theorem example_entries_rendered:
  "map_of (items TOOL_MAPPINGS) ''list_zoku'' = Some (''zoku'', ''list'', [''args''])
   \<and> occurrences ''zoku.list(args)''
        (generate_tool_impl ''list_zoku'' ''zoku'' ''list'' [''args'']) = 1
   \<and> occurrences ''description: schemas.list_zoku.description''
        (generate_tool_impl ''list_zoku'' ''zoku'' ''list'' [''args'']) = 1
   \<and> occurrences ''inputSchema: schemas.list_zoku''
        (generate_tool_impl ''list_zoku'' ''zoku'' ''list'' [''args'']) = 1
   \<and> map_of (items TOOL_MAPPINGS) ''disentangle'' =
        Some (''entanglements'', ''removeFromMatrix'',
          [''args.entanglement_id'', ''args.zoku_id'', ''args.role''])
   \<and> occurrences ''entanglements.removeFromMatrix(args.entanglement_id, args.zoku_id, args.role)''
        (generate_tool_impl ''disentangle'' ''entanglements'' ''removeFromMatrix''
          [''args.entanglement_id'', ''args.zoku_id'', ''args.role'']) = 1"
  unfolding items_TOOL_MAPPINGS by code_simp

subsection \<open>The table\<close>

text \<open>
  C6. Nothing is validated, but a table cannot hold a tool name twice: a display that
  declares a name twice evaluates to a dictionary with one item for the name, carrying the
  value declared last, and a run writes one block per distinct declared name. The joined
  argument text stands in the block as it is, whatever it is.
\<close>

theorem duplicates_collapse_text_verbatim:
  "distinct (map fst (items (dict_display decl)))
   \<and> fst ` set (items (dict_display decl)) = fst ` set decl
   \<and> map_of (items (dict_display decl)) = map_of (rev decl)
   \<and> len (dict_display decl) = card (fst ` set decl)
   \<and> written \<lparr>tool_mappings = dict_display decl, stdout = out\<rparr> =
       ''// Generated MCP tool registrations using services\<newline>\<newline>'' @
       concat (map (\<lambda>e. render e @ ''\<newline>'') (sort (items (dict_display decl)))) @
       ''\<newline>// Total tools migrated: '' @ str_nat (card (fst ` set decl)) @ ''\<newline>''
   \<and> 1 \<le> occurrences (sv @ ''.'' @ m @ ''('' @ join '', '' a @ '')'')
          (generate_tool_impl k sv m a)"
proof -
  have "1 \<le> occurrences (sv @ ''.'' @ m @ ''('' @ join '', '' a @ '')'')
          (generate_tool_impl k sv m a)"
    unfolding generate_tool_impl_segments
    by (intro occurrences_here occurrences_skip)
  moreover have "map_of (items (dict_display decl)) = map_of (rev decl)"
    by (simp add: items_dict_display map_of_foldl_setitem_list)
  moreover have "fst ` set (items (dict_display decl)) = fst ` set decl"
    by (simp add: items_dict_display keys_foldl_setitem_list)
  ultimately show ?thesis
    by (simp add: distinct_keys_items len_dict_display written_eq)
qed

text \<open>
  C6 as it was stated does not hold: a display that declares \<^verbatim>\<open>list_zoku\<close> twice gives a
  dictionary with the later entry alone, and the output of the run holds one registration,
  with the later call and without the earlier one.
\<close>

theorem duplicate_names_counterexample:
  "items (dict_display
      [(''list_zoku'', (''zoku'', ''list'', [''args''])),
       (''list_zoku'', (''zoku'', ''listAll'', []))]) =
     [(''list_zoku'', (''zoku'', ''listAll'', []))]
   \<and> occurrences ''server.registerTool(''
       (written \<lparr>tool_mappings = dict_display
          [(''list_zoku'', (''zoku'', ''list'', [''args''])),
           (''list_zoku'', (''zoku'', ''listAll'', []))], stdout = []\<rparr>) = 1
   \<and> occurrences ''zoku.list(args)''
       (written \<lparr>tool_mappings = dict_display
          [(''list_zoku'', (''zoku'', ''list'', [''args''])),
           (''list_zoku'', (''zoku'', ''listAll'', []))], stdout = []\<rparr>) = 0
   \<and> occurrences ''zoku.listAll()''
       (written \<lparr>tool_mappings = dict_display
          [(''list_zoku'', (''zoku'', ''list'', [''args''])),
           (''list_zoku'', (''zoku'', ''listAll'', []))], stdout = []\<rparr>) = 1"
  unfolding written_eq len_def state.simps items_dict_display by code_simp

end
